theory Spec2Isabelle
  imports Complex_Main "HOL-Library.Sublist" "HOL-Library.Multiset"
begin

section \<open>Data model (types/index.ts)\<close>

text \<open>
  Timestamps. The source keeps \<open>deadline\<close>, \<open>createdAt\<close>, ... as ISO strings and turns
  them into instants with \<open>new Date(iso)\<close>. The model stores the instant itself, as the
  number of milliseconds since the epoch (what \<open>getTime()\<close> returns). Strings that do not
  parse are outside the model.

  Numbers. A JavaScript \<open>number\<close> is modelled by a \<open>real\<close>: the arithmetic of the scorer
  is the exact arithmetic of the formula, \<open>Math.exp\<close> is \<open>exp\<close>, and \<open>toFixed(4)\<close> rounds
  the exact value.
\<close>

type_synonym timestamp = int

datatype priority = Low | Medium | High | Critical

datatype category =
  Personal | Work | Health | Finance | Education | Shopping | Travel | Other

record task =
  task_id :: string
  userId :: string
  title :: string
  description :: string
  dateTime :: timestamp
  deadline :: timestamp
  priority :: priority
  category :: category
  tags :: "string list"
  completed :: bool
  createdAt :: timestamp
  updatedAt :: timestamp
  sortScore :: "real option"

datatype sort_order = Smart | Deadline | Priority | CreatedAt | Alpha

section \<open>The urgency scorer (utils/sortAlgorithm.ts)\<close>

fun PRIORITY_WEIGHTS :: "priority \<Rightarrow> real" where
  "PRIORITY_WEIGHTS Critical = 4"
| "PRIORITY_WEIGHTS High = 3"
| "PRIORITY_WEIGHTS Medium = 2"
| "PRIORITY_WEIGHTS Low = 1"

text \<open>
  \<open>differenceInHours\<close> of date-fns: the difference of the two instants in milliseconds,
  divided by 3600000 and truncated toward zero.
\<close>

definition differenceInHours :: "timestamp \<Rightarrow> timestamp \<Rightarrow> int" where
  "differenceInHours dateLeft dateRight =
     (let diff = dateLeft - dateRight
      in if diff < 0 then - ((- diff) div 3600000) else diff div 3600000)"

text \<open>
  \<open>deadlineUrgency\<close> and \<open>ageBoost\<close> read the wall clock (\<open>new Date()\<close>); the model
  takes the reading as the first argument.
\<close>

definition deadlineUrgency :: "timestamp \<Rightarrow> timestamp \<Rightarrow> real" where
  "deadlineUrgency now deadlineISO =
     (let hoursLeft = differenceInHours deadlineISO now
      in if hoursLeft \<le> 0 then 1
         else exp (- (7 / 1000) * real_of_int hoursLeft))"

definition ageBoost :: "timestamp \<Rightarrow> timestamp \<Rightarrow> real" where
  "ageBoost now createdAtISO =
     (let ageHours = differenceInHours now createdAtISO;
          maxAgeHours = 30 * 24
      in min (real_of_int ageHours / maxAgeHours) 1)"

text \<open>
  \<open>parseFloat(x.toFixed(4))\<close>: the multiple of 1/10000 nearest to \<open>x\<close>, a tie going to
  the one of larger magnitude.
\<close>

definition toFixed4 :: "real \<Rightarrow> real" where
  "toFixed4 x =
     (if x < 0 then - (real_of_int \<lfloor>(- x) * 10000 + 1 / 2\<rfloor> / 10000)
      else real_of_int \<lfloor>x * 10000 + 1 / 2\<rfloor> / 10000)"

text \<open>
  \<open>calculateSmartScore\<close> reads the clock twice, once in each helper: \<open>nowD\<close> is the
  reading taken by \<open>deadlineUrgency\<close>, \<open>nowA\<close> the later one taken by \<open>ageBoost\<close>.
  A caller with one reference time passes it for both.
\<close>

definition calculateSmartScore :: "timestamp \<Rightarrow> timestamp \<Rightarrow> task \<Rightarrow> real" where
  "calculateSmartScore nowD nowA t =
     (if completed t then - 1
      else
        let priorityNorm = PRIORITY_WEIGHTS (priority t) / 4;
            dlUrgency = deadlineUrgency nowD (deadline t);
            age = ageBoost nowA (createdAt t);
            raw = priorityNorm * (40 / 100) + dlUrgency * (40 / 100) + age * (20 / 100)
        in toFixed4 (raw * 10))"

section \<open>Strings\<close>

text \<open>
  A string is the list of its characters; text beyond the 8-bit range of \<open>char\<close> is held
  in its UTF-8 encoding, in which one text occurs in another exactly when its bytes occur
  contiguously. What \<open>String.prototype.toLowerCase\<close> and \<open>String.prototype.trim\<close> do
  (the case mapping and the white space of Unicode) belongs to the host, as the collation
  of \<open>localeCompare\<close> does: the engine takes the three functions as arguments, and what is
  proved of it holds for every host.
\<close>

text \<open>\<open>s.includes(q)\<close>: \<open>q\<close> occurs in \<open>s\<close> as a contiguous substring.\<close>

definition str_includes :: "string \<Rightarrow> string \<Rightarrow> bool" where
  "str_includes s q = sublist q s"

section \<open>Comparators and sorting (utils/sortAlgorithm.ts)\<close>

text \<open>
  \<open>title.localeCompare\<close> is the collation of the host; the comparator factory takes it
  as its first argument. The \<open>default\<close> branch of the \<open>switch\<close> is unreachable for a
  value of type \<open>SortOrder\<close>. \<open>x ?? 0\<close> is the \<open>case\<close> on the optional \<open>sortScore\<close>.
\<close>

definition getComparator ::
  "(string \<Rightarrow> string \<Rightarrow> real) \<Rightarrow> sort_order \<Rightarrow> task \<Rightarrow> task \<Rightarrow> real" where
  "getComparator localeCompare order a b =
     (if completed a \<noteq> completed b then (if completed a then 1 else - 1)
      else case order of
        Smart \<Rightarrow>
          (case sortScore b of Some s \<Rightarrow> s | None \<Rightarrow> 0)
            - (case sortScore a of Some s \<Rightarrow> s | None \<Rightarrow> 0)
      | Deadline \<Rightarrow> real_of_int (deadline a) - real_of_int (deadline b)
      | Priority \<Rightarrow>
          (let diff = PRIORITY_WEIGHTS (priority b) - PRIORITY_WEIGHTS (priority a)
           in if diff \<noteq> 0 then diff
              else real_of_int (deadline a) - real_of_int (deadline b))
      | CreatedAt \<Rightarrow> real_of_int (createdAt b) - real_of_int (createdAt a)
      | Alpha \<Rightarrow> localeCompare (title a) (title b))"

text \<open>
  \<open>Array.prototype.sort(compareFn)\<close> is stable: an element stays before a later one
  unless the comparator puts the later one strictly first. The model is the stable
  insertion sort: \<open>array_insert\<close> puts \<open>x\<close>, which came before all of \<open>ys\<close>, in front
  of the first \<open>y\<close> with \<open>compareFn x y \<le> 0\<close>.
\<close>

fun array_insert :: "('a \<Rightarrow> 'a \<Rightarrow> real) \<Rightarrow> 'a \<Rightarrow> 'a list \<Rightarrow> 'a list" where
  "array_insert compareFn x [] = [x]"
| "array_insert compareFn x (y # ys) =
     (if compareFn x y \<le> 0 then x # y # ys else y # array_insert compareFn x ys)"

fun array_sort :: "('a \<Rightarrow> 'a \<Rightarrow> real) \<Rightarrow> 'a list \<Rightarrow> 'a list" where
  "array_sort compareFn [] = []"
| "array_sort compareFn (x # xs) = array_insert compareFn x (array_sort compareFn xs)"

section \<open>The filter/sort engine (utils/sortAlgorithm.ts)\<close>

text \<open>
  The \<open>filter\<close> argument. Its fields \<open>priority\<close> and \<open>category\<close> are strings (a level or
  category name, or \<open>all\<close>); they are called \<open>priority_f\<close> and \<open>category_f\<close> here,
  the plain names being fields of \<open>task\<close>.
\<close>

datatype status_filter = StatusAll | StatusActive | StatusCompleted

record task_filter =
  status :: status_filter
  priority_f :: string
  category_f :: string
  searchQuery :: string
  tag :: "string option"

text \<open>The string that a value of the union types \<open>Priority\<close> and \<open>Category\<close> is.\<close>

fun priorityStr :: "priority \<Rightarrow> string" where
  "priorityStr Low = ''low''"
| "priorityStr Medium = ''medium''"
| "priorityStr High = ''high''"
| "priorityStr Critical = ''critical''"

fun categoryStr :: "category \<Rightarrow> string" where
  "categoryStr Personal = ''personal''"
| "categoryStr Work = ''work''"
| "categoryStr Health = ''health''"
| "categoryStr Finance = ''finance''"
| "categoryStr Education = ''education''"
| "categoryStr Shopping = ''shopping''"
| "categoryStr Travel = ''travel''"
| "categoryStr Other = ''other''"

text \<open>
  \<open>sortAndFilterTasks\<close> on the contents of the arrays; its first three arguments are
  the host's \<open>localeCompare\<close>, \<open>toLowerCase\<close> and \<open>trim\<close>. \<open>if (filter.tag)\<close> holds
  for a tag that is neither \<open>null\<close> nor the empty string.
\<close>

definition sortAndFilterTasks ::
  "(string \<Rightarrow> string \<Rightarrow> real) \<Rightarrow> (string \<Rightarrow> string) \<Rightarrow> (string \<Rightarrow> string)
     \<Rightarrow> task list \<Rightarrow> task_filter \<Rightarrow> sort_order \<Rightarrow> task list" where
  "sortAndFilterTasks localeCompare toLowerCase trim tasks flt order =
     (let result = tasks;
          result =
            (case status flt of
               StatusActive \<Rightarrow> filter (\<lambda>t. \<not> completed t) result
             | StatusCompleted \<Rightarrow> filter (\<lambda>t. completed t) result
             | StatusAll \<Rightarrow> result);
          result =
            (if priority_f flt \<noteq> ''all''
             then filter (\<lambda>t. priorityStr (priority t) = priority_f flt) result
             else result);
          result =
            (if category_f flt \<noteq> ''all''
             then filter (\<lambda>t. categoryStr (category t) = category_f flt) result
             else result);
          result =
            (case tag flt of
               Some g \<Rightarrow> if g \<noteq> [] then filter (\<lambda>t. g \<in> set (tags t)) result else result
             | None \<Rightarrow> result);
          result =
            (if trim (searchQuery flt) \<noteq> []
             then
               let q = trim (toLowerCase (searchQuery flt))
               in filter
                    (\<lambda>t. str_includes (toLowerCase (title t)) q
                       \<or> str_includes (toLowerCase (description t)) q
                       \<or> list_ex (\<lambda>tag. str_includes (toLowerCase tag) q) (tags t))
                    result
             else result)
      in array_sort (getComparator localeCompare order) result)"

section \<open>The five filter predicates, as the specification words them\<close>

text \<open>
  Each restriction is a predicate on one task. A restriction that is switched off
  (\<open>all\<close>, no tag or the empty tag, a query that is empty after trimming) holds of
  every task.
\<close>

definition statusRestriction :: "task_filter \<Rightarrow> task \<Rightarrow> bool" where
  "statusRestriction flt t =
     (case status flt of
        StatusAll \<Rightarrow> True
      | StatusActive \<Rightarrow> \<not> completed t
      | StatusCompleted \<Rightarrow> completed t)"

definition priorityRestriction :: "task_filter \<Rightarrow> task \<Rightarrow> bool" where
  "priorityRestriction flt t =
     (if priority_f flt = ''all'' then True else priorityStr (priority t) = priority_f flt)"

definition categoryRestriction :: "task_filter \<Rightarrow> task \<Rightarrow> bool" where
  "categoryRestriction flt t =
     (if category_f flt = ''all'' then True else categoryStr (category t) = category_f flt)"

definition tagRestriction :: "task_filter \<Rightarrow> task \<Rightarrow> bool" where
  "tagRestriction flt t =
     (case tag flt of
        None \<Rightarrow> True
      | Some g \<Rightarrow> if g = [] then True else g \<in> set (tags t))"

text \<open>
  The search is switched off by a query that is empty after trimming. Otherwise the
  query, in lower case and trimmed, has to occur in the lower-cased title, in the
  lower-cased description or in one of the lower-cased tags.
\<close>

definition searchRestriction ::
  "(string \<Rightarrow> string) \<Rightarrow> (string \<Rightarrow> string) \<Rightarrow> task_filter \<Rightarrow> task \<Rightarrow> bool" where
  "searchRestriction toLowerCase trim flt t =
     (if trim (searchQuery flt) = [] then True
      else
        let query = trim (toLowerCase (searchQuery flt))
        in sublist query (toLowerCase (title t))
         \<or> sublist query (toLowerCase (description t))
         \<or> list_ex (\<lambda>g. sublist query (toLowerCase g)) (tags t))"

definition satisfiesAll ::
  "(string \<Rightarrow> string) \<Rightarrow> (string \<Rightarrow> string) \<Rightarrow> task_filter \<Rightarrow> task \<Rightarrow> bool" where
  "satisfiesAll toLowerCase trim flt t =
     (statusRestriction flt t \<and> priorityRestriction flt t \<and> categoryRestriction flt t
      \<and> tagRestriction flt t \<and> searchRestriction toLowerCase trim flt t)"

text \<open>
  \<open>containsIgnoringCase\<close>: a query occurs in a field when case is ignored, that is, after
  both are put in lower case.
\<close>

definition containsIgnoringCase :: "(string \<Rightarrow> string) \<Rightarrow> string \<Rightarrow> string \<Rightarrow> bool" where
  "containsIgnoringCase toLowerCase field query =
     sublist (toLowerCase query) (toLowerCase field)"

section \<open>The engine on a store of arrays and objects\<close>

text \<open>
  To see what the engine writes, arrays and task objects live in a store: an array is an
  address holding a list of object references, \<open>nextAddr\<close> is the first address not yet
  allocated. \<open>[...tasks]\<close> and \<open>Array.prototype.filter\<close> allocate a new array,
  \<open>Array.prototype.sort\<close> overwrites the array it is called on; the callbacks read the
  task objects.
\<close>

type_synonym addr = nat
type_synonym ref = nat

record store =
  objects :: "ref \<Rightarrow> task"
  arrays :: "addr \<Rightarrow> ref list"
  nextAddr :: addr

definition alloc :: "ref list \<Rightarrow> store \<Rightarrow> store \<times> addr" where
  "alloc xs h =
     (h\<lparr>arrays := (arrays h)(nextAddr h := xs), nextAddr := Suc (nextAddr h)\<rparr>, nextAddr h)"

definition array_spread :: "addr \<Rightarrow> store \<Rightarrow> store \<times> addr" where
  "array_spread a h = alloc (arrays h a) h"

definition array_filter :: "(task \<Rightarrow> bool) \<Rightarrow> addr \<Rightarrow> store \<Rightarrow> store \<times> addr" where
  "array_filter p a h = alloc (filter (\<lambda>r. p (objects h r)) (arrays h a)) h"

definition array_sort_in_place :: "(task \<Rightarrow> task \<Rightarrow> real) \<Rightarrow> addr \<Rightarrow> store \<Rightarrow> store" where
  "array_sort_in_place compareFn a h =
     h\<lparr>arrays := (arrays h)
        (a := array_sort (\<lambda>x y. compareFn (objects h x) (objects h y)) (arrays h a))\<rparr>"

definition sortAndFilterTasks_store ::
  "(string \<Rightarrow> string \<Rightarrow> real) \<Rightarrow> (string \<Rightarrow> string) \<Rightarrow> (string \<Rightarrow> string)
     \<Rightarrow> addr \<Rightarrow> task_filter \<Rightarrow> sort_order \<Rightarrow> store \<Rightarrow> store \<times> addr" where
  "sortAndFilterTasks_store localeCompare toLowerCase trim tasks flt order h0 =
     (let (h, result) = array_spread tasks h0;
          (h, result) =
            (case status flt of
               StatusActive \<Rightarrow> array_filter (\<lambda>t. \<not> completed t) result h
             | StatusCompleted \<Rightarrow> array_filter (\<lambda>t. completed t) result h
             | StatusAll \<Rightarrow> (h, result));
          (h, result) =
            (if priority_f flt \<noteq> ''all''
             then array_filter (\<lambda>t. priorityStr (priority t) = priority_f flt) result h
             else (h, result));
          (h, result) =
            (if category_f flt \<noteq> ''all''
             then array_filter (\<lambda>t. categoryStr (category t) = category_f flt) result h
             else (h, result));
          (h, result) =
            (case tag flt of
               Some g \<Rightarrow>
                 if g \<noteq> [] then array_filter (\<lambda>t. g \<in> set (tags t)) result h
                 else (h, result)
             | None \<Rightarrow> (h, result));
          (h, result) =
            (if trim (searchQuery flt) \<noteq> []
             then
               let q = trim (toLowerCase (searchQuery flt))
               in array_filter
                    (\<lambda>t. str_includes (toLowerCase (title t)) q
                       \<or> str_includes (toLowerCase (description t)) q
                       \<or> list_ex (\<lambda>tag. str_includes (toLowerCase tag) q) (tags t))
                    result h
             else (h, result));
          h = array_sort_in_place (getComparator localeCompare order) result h
      in (h, result))"

section \<open>Auxiliary notions and fixtures\<close>

text \<open>Completion as a sort key: 0 for an active task, 1 for a completed one.\<close>

definition doneKey :: "task \<Rightarrow> nat" where
  "doneKey t = (if completed t then 1 else 0)"

text \<open>The score that the smart comparator reads off a task.\<close>

definition score0 :: "task \<Rightarrow> real" where
  "score0 t = (case sortScore t of Some s \<Rightarrow> s | None \<Rightarrow> 0)"

text \<open>
  \<open>extends h0 h\<close>: the store \<open>h\<close> has every array of \<open>h0\<close> with its old contents and
  the same objects. \<open>holds h0 ts (h, r)\<close>: moreover \<open>r\<close> is an array allocated after
  \<open>h0\<close> whose elements are the tasks \<open>ts\<close>.
\<close>

definition extends :: "store \<Rightarrow> store \<Rightarrow> bool" where
  "extends h0 h \<longleftrightarrow>
     nextAddr h0 \<le> nextAddr h \<and> objects h = objects h0
     \<and> (\<forall>a<nextAddr h0. arrays h a = arrays h0 a)"

definition holds :: "store \<Rightarrow> task list \<Rightarrow> store \<times> addr \<Rightarrow> bool" where
  "holds h0 ts s \<longleftrightarrow>
     (case s of (h, r) \<Rightarrow>
        extends h0 h \<and> nextAddr h0 \<le> r \<and> r < nextAddr h
        \<and> map (objects h) (arrays h r) = ts)"

text \<open>Concrete tasks, filters and a store for the examples.\<close>

definition fixture ::
  "string \<Rightarrow> priority \<Rightarrow> bool \<Rightarrow> timestamp \<Rightarrow> timestamp \<Rightarrow> real option \<Rightarrow> task" where
  "fixture ttl p c dl cr sc =
     \<lparr>task_id = ttl, userId = ''u1'', title = ttl, description = ''Quarterly Report draft'',
      dateTime = cr, deadline = dl, priority = p, category = Work,
      tags = [''urgent'', ''office''], completed = c, createdAt = cr, updatedAt = cr,
      sortScore = sc\<rparr>"

definition fixtureFilter :: task_filter where
  "fixtureFilter =
     \<lparr>status = StatusActive, priority_f = ''high'', category_f = ''work'',
      searchQuery = ''  rePORT  '', tag = Some ''urgent''\<rparr>"

definition noFilter :: task_filter where
  "noFilter =
     \<lparr>status = StatusAll, priority_f = ''all'', category_f = ''all'',
      searchQuery = [], tag = None\<rparr>"

definition fixtureStore :: store where
  "fixtureStore =
     \<lparr>objects = (\<lambda>r. if r = 0 then fixture ''done'' High True 0 0 (Some (- 1))
                       else fixture ''todo'' Low False 5 0 None),
      arrays = (\<lambda>a. if a = 0 then [0, 1] else []),
      nextAddr = 1\<rparr>"

text \<open>
  A sample host for the examples, on ASCII text, where every host does the same: lower
  case maps \<open>A\<close>..\<open>Z\<close> to \<open>a\<close>..\<open>z\<close>, and the white space stripped from both ends
  is TAB, LF, VT, FF, CR and SPACE.
\<close>

definition asciiLowerChar :: "char \<Rightarrow> char" where
  "asciiLowerChar c =
     (case map_of (zip ''ABCDEFGHIJKLMNOPQRSTUVWXYZ'' ''abcdefghijklmnopqrstuvwxyz'') c of
        Some l \<Rightarrow> l
      | None \<Rightarrow> c)"

definition asciiToLowerCase :: "string \<Rightarrow> string" where
  "asciiToLowerCase s = map asciiLowerChar s"

definition asciiWhiteSpace :: "char \<Rightarrow> bool" where
  "asciiWhiteSpace c =
     (c \<in> set [CHR 0x09, CHR 0x0A, CHR 0x0B, CHR 0x0C, CHR 0x0D, CHR '' ''])"

definition asciiTrim :: "string \<Rightarrow> string" where
  "asciiTrim s = rev (dropWhile asciiWhiteSpace (rev (dropWhile asciiWhiteSpace s)))"

text \<open>Tasks for the example of the five restrictions.\<close>

definition searchFixture ::
  "string \<Rightarrow> string \<Rightarrow> string list \<Rightarrow> priority \<Rightarrow> category \<Rightarrow> bool \<Rightarrow> task" where
  "searchFixture ttl desc tgs p cat c =
     \<lparr>task_id = ttl, userId = ''u1'', title = ttl, description = desc,
      dateTime = 0, deadline = 0, priority = p, category = cat, tags = tgs,
      completed = c, createdAt = 0, updatedAt = 0, sortScore = None\<rparr>"

definition searchTasks :: "task list" where
  "searchTasks =
     [searchFixture ''Weekly REPORT'' [] [''urgent''] High Work False,
      searchFixture ''Plan'' ''nothing'' [''urgent'', ''Reports''] High Work False,
      searchFixture ''Plan'' ''Send the report'' [''urgent''] High Work False,
      searchFixture ''Report'' [] [''Urgent''] High Work False,
      searchFixture ''Report'' [] [''urgent''] Low Work False,
      searchFixture ''Report'' [] [''urgent''] High Personal False,
      searchFixture ''Report'' [] [''urgent''] High Work True,
      searchFixture ''Plan'' ''nothing'' [''urgent''] High Work False]"

text \<open>The clock reading of the examples: 2023-11-14T22:13:20Z.\<close>

definition clock :: timestamp where
  "clock = 1700000000000"

section \<open>Properties of the scorer\<close>

subsection \<open>Hour differences\<close>

lemma differenceInHours_nonpos:
  "dateLeft \<le> dateRight \<Longrightarrow> differenceInHours dateLeft dateRight \<le> 0"
  by (simp add: differenceInHours_def Let_def pos_imp_zdiv_nonneg_iff)

lemma differenceInHours_nonneg:
  "dateRight \<le> dateLeft \<Longrightarrow> 0 \<le> differenceInHours dateLeft dateRight"
  by (simp add: differenceInHours_def Let_def pos_imp_zdiv_nonneg_iff)

lemma differenceInHours_within_hour:
  "now < d \<Longrightarrow> d < now + 3600000 \<Longrightarrow> differenceInHours d now = 0"
  by (simp add: differenceInHours_def Let_def)

lemma differenceInHours_whole_hours:
  "0 \<le> k \<Longrightarrow> 0 \<le> r \<Longrightarrow> r < 3600000 \<Longrightarrow>
   differenceInHours (now + k * 3600000 + r) now = k"
  by (simp add: differenceInHours_def Let_def)

lemma differenceInHours_mono:
  assumes le: "d1 \<le> d2"
  shows "differenceInHours d1 now \<le> differenceInHours d2 now"
proof -
  consider (neg) "d2 - now < 0" | (mixed) "d1 - now < 0" "0 \<le> d2 - now" | (pos) "0 \<le> d1 - now"
    by linarith
  then show ?thesis
  proof cases
    case neg
    with le have "d1 - now < 0" by simp
    moreover have "(- (d2 - now)) div 3600000 \<le> (- (d1 - now)) div 3600000"
      using le by (intro zdiv_mono1) simp_all
    ultimately show ?thesis using neg by (simp add: differenceInHours_def Let_def)
  next
    case mixed
    have "0 \<le> (- (d1 - now)) div 3600000"
      using mixed(1) by (simp add: pos_imp_zdiv_nonneg_iff)
    moreover have "0 \<le> (d2 - now) div 3600000"
      using mixed(2) by (simp add: pos_imp_zdiv_nonneg_iff)
    ultimately show ?thesis using mixed by (simp add: differenceInHours_def Let_def)
  next
    case pos
    with le have "0 \<le> d2 - now" by simp
    moreover have "(d1 - now) div 3600000 \<le> (d2 - now) div 3600000"
      using le by (intro zdiv_mono1) simp_all
    ultimately show ?thesis using pos by (simp add: differenceInHours_def Let_def)
  qed
qed

subsection \<open>Rounding to four decimals\<close>

lemma toFixed4_mono:
  assumes le: "x \<le> y"
  shows "toFixed4 x \<le> toFixed4 y"
proof -
  consider (neg) "y < 0" | (mixed) "x < 0" "0 \<le> y" | (pos) "0 \<le> x"
    by linarith
  then show ?thesis
  proof cases
    case neg
    with le have "x < 0" by simp
    moreover have "\<lfloor>(- y) * 10000 + 1 / 2\<rfloor> \<le> \<lfloor>(- x) * 10000 + 1 / 2\<rfloor>"
      using le by (intro floor_mono) simp
    ultimately show ?thesis using neg by (simp add: toFixed4_def divide_right_mono)
  next
    case mixed
    have "0 \<le> \<lfloor>(- x) * 10000 + 1 / 2\<rfloor>" using mixed(1) by simp
    moreover have "0 \<le> \<lfloor>y * 10000 + 1 / 2\<rfloor>" using mixed(2) by simp
    ultimately have "- (real_of_int \<lfloor>(- x) * 10000 + 1 / 2\<rfloor> / 10000) \<le> 0"
      and "0 \<le> real_of_int \<lfloor>y * 10000 + 1 / 2\<rfloor> / 10000" by simp_all
    then have "- (real_of_int \<lfloor>(- x) * 10000 + 1 / 2\<rfloor> / 10000)
        \<le> real_of_int \<lfloor>y * 10000 + 1 / 2\<rfloor> / 10000"
      by linarith
    then show ?thesis using mixed unfolding toFixed4_def by simp
  next
    case pos
    with le have "0 \<le> y" by simp
    moreover have "\<lfloor>x * 10000 + 1 / 2\<rfloor> \<le> \<lfloor>y * 10000 + 1 / 2\<rfloor>"
      using le by (intro floor_mono) simp
    ultimately show ?thesis using pos by (simp add: toFixed4_def divide_right_mono)
  qed
qed

lemma toFixed4_0: "toFixed4 0 = 0"
  by (simp add: toFixed4_def)

lemma toFixed4_10: "toFixed4 10 = 10"
  by (simp add: toFixed4_def)

subsection \<open>The three components\<close>

lemma deadlineUrgency_le_1: "deadlineUrgency now d \<le> 1"
  by (simp add: deadlineUrgency_def Let_def)

lemma deadlineUrgency_pos: "0 < deadlineUrgency now d"
  by (simp add: deadlineUrgency_def Let_def)

lemma deadlineUrgency_antimono:
  "d1 \<le> d2 \<Longrightarrow> deadlineUrgency now d2 \<le> deadlineUrgency now d1"
  using differenceInHours_mono [of d1 d2 now] by (auto simp add: deadlineUrgency_def Let_def)

lemma ageBoost_le_1: "ageBoost now created \<le> 1"
  by (simp add: ageBoost_def Let_def)

lemma ageBoost_nonneg: "created \<le> now \<Longrightarrow> 0 \<le> ageBoost now created"
  using differenceInHours_nonneg [of created now] by (simp add: ageBoost_def Let_def)

lemma PRIORITY_WEIGHTS_range: "1 \<le> PRIORITY_WEIGHTS p \<and> PRIORITY_WEIGHTS p \<le> 4"
  by (cases p) simp_all

text \<open>
  When the task was created no later than the clock reads, the score is in the range
  that the header of the source file states.
\<close>

lemma calculateSmartScore_range:
  assumes "createdAt t \<le> nowA"
  shows "- 1 \<le> calculateSmartScore nowD nowA t \<and> calculateSmartScore nowD nowA t \<le> 10"
proof (cases "completed t")
  case True
  then show ?thesis by (simp add: calculateSmartScore_def)
next
  case False
  define raw where "raw = PRIORITY_WEIGHTS (priority t) / 4 * (40 / 100)
      + deadlineUrgency nowD (deadline t) * (40 / 100) + ageBoost nowA (createdAt t) * (20 / 100)"
  have sc: "calculateSmartScore nowD nowA t = toFixed4 (raw * 10)"
    using False by (simp add: calculateSmartScore_def raw_def Let_def)
  have "0 \<le> raw * 10"
    using PRIORITY_WEIGHTS_range [of "priority t"] deadlineUrgency_pos [of nowD "deadline t"]
      ageBoost_nonneg [OF assms] by (simp add: raw_def)
  then have "toFixed4 0 \<le> toFixed4 (raw * 10)" by (rule toFixed4_mono)
  moreover have "raw * 10 \<le> 10"
    using PRIORITY_WEIGHTS_range [of "priority t"] deadlineUrgency_le_1 [of nowD "deadline t"]
      ageBoost_le_1 [of nowA "createdAt t"] by (simp add: raw_def)
  then have "toFixed4 (raw * 10) \<le> toFixed4 10" by (rule toFixed4_mono)
  ultimately show ?thesis by (simp add: sc toFixed4_0 toFixed4_10)
qed

subsection \<open>Claims about the scorer\<close>

text \<open>
  Claim C1. For every task with \<open>completed = true\<close> the scorer returns exactly \<open>-1\<close>,
  whatever the clock reads and whatever the priority, deadline and creation time are.
\<close>

theorem score_completed_sentinel:
  "completed t \<Longrightarrow> calculateSmartScore nowD nowA t = - 1"
  by (simp add: calculateSmartScore_def)

theorem score_completed_sentinel_witness:
  "completed (fixture ''done'' Critical True 0 0 None)
   \<and> calculateSmartScore clock clock (fixture ''done'' Critical True 0 0 None) = - 1"
proof -
  have h: "completed (fixture ''done'' Critical True 0 0 None)"
    by (simp add: fixture_def)
  from score_completed_sentinel [OF h, of clock clock] h show ?thesis by simp
qed

text \<open>
  Claim C2. The claim is that the score is in \<open>[-1, 10]\<close> for all timestamps, the age in
  hours being clamped at 0. \<open>ageBoost\<close> does not clamp: for a task created after the clock
  reading the age component is negative and unbounded below. Here an overdue task of low
  priority whose \<open>createdAt\<close> is 7200 hours after the clock reading has age component
  \<open>-10\<close> and score \<open>-15\<close>.
\<close>

theorem score_below_range_future_createdAt:
  "ageBoost clock (clock + 7200 * 3600000) = - 10
   \<and> calculateSmartScore clock clock
        (fixture ''t'' Low False (clock - 3600000) (clock + 7200 * 3600000) None) = - 15
   \<and> calculateSmartScore clock clock
        (fixture ''t'' Low False (clock - 3600000) (clock + 7200 * 3600000) None) < - 1"
  by (simp add: calculateSmartScore_def fixture_def deadlineUrgency_def ageBoost_def
      differenceInHours_def toFixed4_def clock_def Let_def)

text \<open>
  Claim C3. For every incomplete task whose deadline is at or before the clock reading,
  the deadline-urgency component is exactly 1, so the score is a function of the priority
  and age components alone.
\<close>

theorem overdue_saturation:
  assumes "\<not> completed t" and "deadline t \<le> nowD"
  shows "deadlineUrgency nowD (deadline t) = 1
    \<and> calculateSmartScore nowD nowA t =
        toFixed4 ((PRIORITY_WEIGHTS (priority t) / 4 * (40 / 100) + 40 / 100
                   + ageBoost nowA (createdAt t) * (20 / 100)) * 10)"
proof -
  have "differenceInHours (deadline t) nowD \<le> 0"
    using assms(2) by (rule differenceInHours_nonpos)
  then have "deadlineUrgency nowD (deadline t) = 1"
    by (simp add: deadlineUrgency_def Let_def)
  with assms(1) show ?thesis by (simp add: calculateSmartScore_def Let_def)
qed

theorem overdue_saturation_witness:
  "\<not> completed (fixture ''t'' High False clock (clock - 7200000) None)
   \<and> deadline (fixture ''t'' High False clock (clock - 7200000) None) \<le> clock
   \<and> deadlineUrgency clock (deadline (fixture ''t'' High False clock (clock - 7200000) None)) = 1
   \<and> calculateSmartScore clock clock (fixture ''t'' High False clock (clock - 7200000) None)
       = 70056 / 10000"
proof -
  let ?t = "fixture ''t'' High False clock (clock - 7200000) None"
  have h1: "\<not> completed ?t" by (simp add: fixture_def)
  have h2: "deadline ?t \<le> clock" by (simp add: fixture_def)
  have "toFixed4 ((PRIORITY_WEIGHTS (priority ?t) / 4 * (40 / 100) + 40 / 100
                   + ageBoost clock (createdAt ?t) * (20 / 100)) * 10) = 70056 / 10000"
    by (simp add: fixture_def ageBoost_def differenceInHours_def toFixed4_def clock_def Let_def)
  with overdue_saturation [OF h1 h2, of clock] h1 h2 show ?thesis by simp
qed

text \<open>
  Claim C4, as amended. For a task with priority critical, deadline one hour before the
  clock reading, creation one hour before the clock reading and \<open>completed = false\<close>, the
  deadline component is 1, the priority component is 1, the age component is 1/720 and
  the score is 8.0028 (\<open>10 * (0.4 + 0.4 + 0.2 / 720) = 8.00277...\<close>, rounded to four
  decimals), not 8.0003.
\<close>

theorem scenarioA_score:
  assumes "priority t = Critical" and "deadline t = now - 3600000"
    and "createdAt t = now - 3600000" and "\<not> completed t"
  shows "deadlineUrgency now (deadline t) = 1
    \<and> PRIORITY_WEIGHTS (priority t) / 4 = 1
    \<and> ageBoost now (createdAt t) = 1 / 720
    \<and> calculateSmartScore now now t = 80028 / 10000"
  using assms
  by (simp add: calculateSmartScore_def deadlineUrgency_def ageBoost_def
      differenceInHours_def toFixed4_def Let_def)

theorem scenarioA_score_witness:
  "priority (fixture ''a'' Critical False (clock - 3600000) (clock - 3600000) None) = Critical
   \<and> \<not> completed (fixture ''a'' Critical False (clock - 3600000) (clock - 3600000) None)
   \<and> calculateSmartScore clock clock
        (fixture ''a'' Critical False (clock - 3600000) (clock - 3600000) None) = 80028 / 10000"
proof -
  let ?t = "fixture ''a'' Critical False (clock - 3600000) (clock - 3600000) None"
  have h1: "priority ?t = Critical" by (simp add: fixture_def)
  have h2: "deadline ?t = clock - 3600000" by (simp add: fixture_def)
  have h3: "createdAt ?t = clock - 3600000" by (simp add: fixture_def)
  have h4: "\<not> completed ?t" by (simp add: fixture_def)
  from scenarioA_score [OF h1 h2 h3 h4] h1 h4 show ?thesis by simp
qed

text \<open>
  The claim as stated (score approximately 8.0003) fails at this input: the score is
  8.0028 and is further than 0.002 from 8.0003.
\<close>

theorem scenarioA_score_counterexample:
  "calculateSmartScore 1700000000000 1700000000000
     (fixture ''a'' Critical False (1700000000000 - 3600000) (1700000000000 - 3600000) None)
     = 80028 / 10000
   \<and> \<not> \<bar>calculateSmartScore 1700000000000 1700000000000
          (fixture ''a'' Critical False (1700000000000 - 3600000) (1700000000000 - 3600000) None)
          - 80003 / 10000\<bar> \<le> 2 / 1000"
  by (simp add: calculateSmartScore_def fixture_def deadlineUrgency_def ageBoost_def
      differenceInHours_def toFixed4_def Let_def)

text \<open>
  Claim C7. For two incomplete tasks that differ in the deadline only, both deadlines
  strictly after the clock reading, the task with the later deadline has a lower or equal
  deadline-urgency component and a lower or equal score.
\<close>

theorem monotonic_decay:
  assumes "\<not> completed t" and "nowD < d1" and "d1 \<le> d2"
  shows "deadlineUrgency nowD d2 \<le> deadlineUrgency nowD d1
    \<and> calculateSmartScore nowD nowA (t\<lparr>deadline := d2\<rparr>)
        \<le> calculateSmartScore nowD nowA (t\<lparr>deadline := d1\<rparr>)"
proof -
  have du: "deadlineUrgency nowD d2 \<le> deadlineUrgency nowD d1"
    using assms(3) by (rule deadlineUrgency_antimono)
  let ?raw = "\<lambda>d. PRIORITY_WEIGHTS (priority t) / 4 * (40 / 100)
      + deadlineUrgency nowD d * (40 / 100) + ageBoost nowA (createdAt t) * (20 / 100)"
  have "?raw d2 * 10 \<le> ?raw d1 * 10" using du by simp
  then have "toFixed4 (?raw d2 * 10) \<le> toFixed4 (?raw d1 * 10)" by (rule toFixed4_mono)
  then have "calculateSmartScore nowD nowA (t\<lparr>deadline := d2\<rparr>)
      \<le> calculateSmartScore nowD nowA (t\<lparr>deadline := d1\<rparr>)"
    using assms(1) by (simp add: calculateSmartScore_def Let_def)
  with du show ?thesis by simp
qed

theorem monotonic_decay_witness:
  "\<not> completed (fixture ''t'' High False 0 0 None)
   \<and> (0 :: int) < 7200000 \<and> (7200000 :: int) \<le> 90000000
   \<and> deadlineUrgency 0 90000000 \<le> deadlineUrgency 0 7200000
   \<and> calculateSmartScore 0 0 ((fixture ''t'' High False 0 0 None)\<lparr>deadline := 90000000\<rparr>)
       \<le> calculateSmartScore 0 0 ((fixture ''t'' High False 0 0 None)\<lparr>deadline := 7200000\<rparr>)"
proof -
  have h1: "\<not> completed (fixture ''t'' High False 0 0 None)" by (simp add: fixture_def)
  have h2: "(0 :: int) < 7200000" by simp
  have h3: "(7200000 :: int) \<le> 90000000" by simp
  from monotonic_decay [OF h1 h2 h3, of 0] h1 h2 h3 show ?thesis by blast
qed

text \<open>
  Claim C9. When the deadline lies strictly between the clock reading and one hour after
  it, the hour difference truncates to 0 and the deadline-urgency component is exactly 1.
  More generally the component is a step function of the whole hours left: \<open>k\<close> whole
  hours and any remainder \<open>r\<close> of less than an hour give the value for \<open>k\<close> hours.
\<close>

theorem final_hour_saturation:
  "(now < d \<and> d < now + 3600000 \<longrightarrow> deadlineUrgency now d = 1)
   \<and> (0 \<le> k \<and> 0 \<le> r \<and> r < 3600000 \<longrightarrow>
        deadlineUrgency now (now + k * 3600000 + r)
          = (if k = 0 then 1 else exp (- (7 / 1000) * real_of_int k)))"
proof -
  have "deadlineUrgency now d = 1" if "now < d" "d < now + 3600000"
    using differenceInHours_within_hour [OF that] by (simp add: deadlineUrgency_def)
  moreover have "deadlineUrgency now (now + k * 3600000 + r)
          = (if k = 0 then 1 else exp (- (7 / 1000) * real_of_int k))"
    if "0 \<le> k" "0 \<le> r" "r < 3600000"
    using differenceInHours_whole_hours [OF that, of now] that(1)
    by (simp add: deadlineUrgency_def)
  ultimately show ?thesis by blast
qed

theorem final_hour_saturation_witness:
  "clock < clock + 3599999 \<and> clock + 3599999 < clock + 3600000
   \<and> deadlineUrgency clock (clock + 3599999) = 1
   \<and> (0 :: int) \<le> 2 \<and> (0 :: int) \<le> 1800000 \<and> (1800000 :: int) < 3600000
   \<and> deadlineUrgency clock (clock + 2 * 3600000 + 1800000) = exp (- (7 / 1000) * 2)"
  using final_hour_saturation [of clock "clock + 3599999" 2 1800000]
  by simp

section \<open>Properties of sorting\<close>

text \<open>
  \<open>array_sort\<close> permutes its input; it keeps the input order of any family of elements
  that the comparator does not separate (stability); and for a comparator that is total
  and transitive its result is sorted.
\<close>

lemma mset_array_insert: "mset (array_insert c x ys) = add_mset x (mset ys)"
  by (induction ys) simp_all

lemma mset_array_sort: "mset (array_sort c xs) = mset xs"
  by (induction xs) (simp_all add: mset_array_insert)

lemma set_array_sort: "set (array_sort c xs) = set xs"
  using mset_array_sort [of c xs] by (metis set_mset_mset)

lemma set_array_insert: "set (array_insert c x ys) = insert x (set ys)"
  by (induction ys) auto

lemma filter_array_insert:
  assumes "\<And>y. P x \<Longrightarrow> P y \<Longrightarrow> c x y \<le> 0"
  shows "filter P (array_insert c x ys) = (if P x then x # filter P ys else filter P ys)"
  using assms by (induction ys) auto

lemma array_sort_stable:
  assumes "\<And>x y. P x \<Longrightarrow> P y \<Longrightarrow> c x y \<le> 0"
  shows "filter P (array_sort c xs) = filter P xs"
  using assms by (induction xs) (simp_all add: filter_array_insert)

lemma sorted_array_insert:
  assumes total: "\<And>a b. 0 < c a b \<Longrightarrow> c b a \<le> 0"
    and trans: "\<And>a b d. c a b \<le> 0 \<Longrightarrow> c b d \<le> 0 \<Longrightarrow> c a d \<le> 0"
  shows "sorted_wrt (\<lambda>a b. c a b \<le> 0) ys \<Longrightarrow> sorted_wrt (\<lambda>a b. c a b \<le> 0) (array_insert c x ys)"
proof (induction ys)
  case Nil
  then show ?case by simp
next
  case (Cons y ys)
  show ?case
  proof (cases "c x y \<le> 0")
    case True
    then have "c x z \<le> 0" if "z \<in> set ys" for z
      using Cons.prems that trans [of x y z] by auto
    with True Cons.prems show ?thesis by auto
  next
    case False
    then have "c y x \<le> 0" using total [of x y] by simp
    with False Cons show ?thesis by (auto simp add: set_array_insert)
  qed
qed

lemma sorted_array_sort:
  assumes total: "\<And>a b. 0 < c a b \<Longrightarrow> c b a \<le> 0"
    and trans: "\<And>a b d. c a b \<le> 0 \<Longrightarrow> c b d \<le> 0 \<Longrightarrow> c a d \<le> 0"
  shows "sorted_wrt (\<lambda>a b. c a b \<le> 0) (array_sort c xs)"
  by (induction xs) (simp_all add: sorted_array_insert [OF total trans])

text \<open>A key that the comparator respects is sorted in the result.\<close>

lemma sorted_key_array_insert:
  fixes key :: "'a \<Rightarrow> nat"
  assumes le: "\<And>a b. c a b \<le> 0 \<Longrightarrow> key a \<le> key b"
    and gt: "\<And>a b. \<not> c a b \<le> 0 \<Longrightarrow> key b \<le> key a"
  shows "sorted (map key ys) \<Longrightarrow> sorted (map key (array_insert c x ys))"
proof (induction ys)
  case Nil
  then show ?case by simp
next
  case (Cons y ys)
  show ?case
  proof (cases "c x y \<le> 0")
    case True
    then have "key x \<le> key y" by (rule le)
    moreover from Cons.prems have "\<forall>z\<in>set ys. key y \<le> key z" by simp
    ultimately have "\<forall>z\<in>set (y # ys). key x \<le> key z" by fastforce
    with Cons.prems True show ?thesis by simp
  next
    case False
    then have "key y \<le> key x" by (rule gt)
    moreover from Cons.prems have "\<forall>z\<in>set ys. key y \<le> key z" by simp
    ultimately have "\<forall>z\<in>set (array_insert c x ys). key y \<le> key z"
      by (simp add: set_array_insert)
    moreover from Cons have "sorted (map key (array_insert c x ys))" by simp
    ultimately show ?thesis using False by simp
  qed
qed

lemma sorted_key_array_sort:
  fixes key :: "'a \<Rightarrow> nat"
  assumes le: "\<And>a b. c a b \<le> 0 \<Longrightarrow> key a \<le> key b"
    and gt: "\<And>a b. \<not> c a b \<le> 0 \<Longrightarrow> key b \<le> key a"
  shows "sorted (map key (array_sort c xs))"
  by (induction xs) (simp_all add: sorted_key_array_insert [OF le gt])

lemma completedLast_sort:
  "sorted (map doneKey (array_sort (getComparator lc order) xs))"
proof (rule sorted_key_array_sort)
  fix a b
  show "getComparator lc order a b \<le> 0 \<Longrightarrow> doneKey a \<le> doneKey b"
    by (cases "completed a"; cases "completed b") (simp_all add: doneKey_def getComparator_def)
  show "\<not> getComparator lc order a b \<le> 0 \<Longrightarrow> doneKey b \<le> doneKey a"
    by (cases "completed a"; cases "completed b") (simp_all add: doneKey_def getComparator_def)
qed

subsection \<open>The comparators\<close>

lemma smart_le_iff:
  "getComparator lc Smart a b \<le> 0 \<longleftrightarrow>
     (if completed a \<noteq> completed b then completed b else score0 b \<le> score0 a)"
  by (simp add: getComparator_def score0_def)

lemma smart_sorted:
  "sorted_wrt (\<lambda>a b. getComparator lc Smart a b \<le> 0) (array_sort (getComparator lc Smart) xs)"
proof (rule sorted_array_sort)
  fix a b :: task
  assume "0 < getComparator lc Smart a b"
  then have "\<not> getComparator lc Smart a b \<le> 0" by simp
  then show "getComparator lc Smart b a \<le> 0"
    unfolding smart_le_iff by (auto split: if_splits)
next
  fix a b d :: task
  assume "getComparator lc Smart a b \<le> 0" "getComparator lc Smart b d \<le> 0"
  then show "getComparator lc Smart a d \<le> 0"
    unfolding smart_le_iff by (auto split: if_splits)
qed



section \<open>Properties of the filter/sort engine\<close>

subsection \<open>The sample host\<close>

text \<open>On the sample host lower-casing and trimming commute.\<close>

lemma asciiWhiteSpace_asciiLowerChar: "asciiWhiteSpace (asciiLowerChar c) = asciiWhiteSpace c"
proof (cases "map_of (zip ''ABCDEFGHIJKLMNOPQRSTUVWXYZ'' ''abcdefghijklmnopqrstuvwxyz'') c")
  case None
  then show ?thesis by (simp add: asciiLowerChar_def)
next
  case (Some l)
  then have "(c, l) \<in> set (zip ''ABCDEFGHIJKLMNOPQRSTUVWXYZ'' ''abcdefghijklmnopqrstuvwxyz'')"
    by (rule map_of_SomeD)
  then have "c \<in> set ''ABCDEFGHIJKLMNOPQRSTUVWXYZ''" and "l \<in> set ''abcdefghijklmnopqrstuvwxyz''"
    by (auto dest: set_zip_leftD set_zip_rightD)
  then have "\<not> asciiWhiteSpace c" and "\<not> asciiWhiteSpace l"
    by (auto simp add: asciiWhiteSpace_def)
  with Some show ?thesis by (simp add: asciiLowerChar_def)
qed

lemma dropWhile_asciiToLowerCase:
  "dropWhile asciiWhiteSpace (asciiToLowerCase s) = asciiToLowerCase (dropWhile asciiWhiteSpace s)"
  by (induction s) (simp_all add: asciiToLowerCase_def asciiWhiteSpace_asciiLowerChar)

lemma asciiTrim_asciiToLowerCase: "asciiTrim (asciiToLowerCase s) = asciiToLowerCase (asciiTrim s)"
proof -
  have "rev (asciiToLowerCase s) = asciiToLowerCase (rev s)" for s
    by (simp add: asciiToLowerCase_def rev_map)
  then show ?thesis
    by (simp add: asciiTrim_def dropWhile_asciiToLowerCase)
qed

subsection \<open>The pipeline is one filter followed by the sort\<close>

lemma sortAndFilterTasks_eq:
  "sortAndFilterTasks lc toLowerCase trim tasks flt order =
     array_sort (getComparator lc order) (filter (satisfiesAll toLowerCase trim flt) tasks)"
proof -
  have search: "(if trim (searchQuery flt) \<noteq> []
             then filter
                    (\<lambda>t. str_includes (toLowerCase (title t)) (trim (toLowerCase (searchQuery flt)))
                       \<or> str_includes (toLowerCase (description t)) (trim (toLowerCase (searchQuery flt)))
                       \<or> list_ex (\<lambda>tag. str_includes (toLowerCase tag) (trim (toLowerCase (searchQuery flt)))) (tags t))
                    xs
             else xs) = filter (searchRestriction toLowerCase trim flt) xs" for xs
  proof (cases "trim (searchQuery flt) = []")
    case True
    then have "searchRestriction toLowerCase trim flt = (\<lambda>t. True)"
      by (simp add: searchRestriction_def fun_eq_iff)
    with True show ?thesis by simp
  next
    case False
    then have "searchRestriction toLowerCase trim flt =
        (\<lambda>t. str_includes (toLowerCase (title t)) (trim (toLowerCase (searchQuery flt)))
           \<or> str_includes (toLowerCase (description t)) (trim (toLowerCase (searchQuery flt)))
           \<or> list_ex (\<lambda>tag. str_includes (toLowerCase tag) (trim (toLowerCase (searchQuery flt))))
                (tags t))"
      by (simp add: searchRestriction_def fun_eq_iff Let_def str_includes_def)
    with False show ?thesis by simp
  qed
  have tg: "(case tag flt of
               Some g \<Rightarrow> if g \<noteq> [] then filter (\<lambda>t. g \<in> set (tags t)) xs else xs
             | None \<Rightarrow> xs) = filter (tagRestriction flt) xs" for xs
    by (auto simp add: tagRestriction_def split: option.splits intro!: filter_cong)
  have cat: "(if category_f flt \<noteq> ''all''
             then filter (\<lambda>t. categoryStr (category t) = category_f flt) xs
             else xs) = filter (categoryRestriction flt) xs" for xs
    by (auto simp add: categoryRestriction_def intro!: filter_cong)
  have pri: "(if priority_f flt \<noteq> ''all''
             then filter (\<lambda>t. priorityStr (priority t) = priority_f flt) xs
             else xs) = filter (priorityRestriction flt) xs" for xs
    by (auto simp add: priorityRestriction_def intro!: filter_cong)
  have st: "(case status flt of
               StatusActive \<Rightarrow> filter (\<lambda>t. \<not> completed t) xs
             | StatusCompleted \<Rightarrow> filter (\<lambda>t. completed t) xs
             | StatusAll \<Rightarrow> xs) = filter (statusRestriction flt) xs" for xs
    by (auto simp add: statusRestriction_def split: status_filter.splits intro!: filter_cong)
  have "filter (searchRestriction toLowerCase trim flt) (filter (tagRestriction flt) (filter (categoryRestriction flt)
          (filter (priorityRestriction flt) (filter (statusRestriction flt) tasks))))
        = filter (satisfiesAll toLowerCase trim flt) tasks"
    by (auto simp add: satisfiesAll_def intro: filter_cong)
  then show ?thesis
    unfolding sortAndFilterTasks_def Let_def st pri cat tg search by (simp only:)
qed

text \<open>
  A query that the host trims to the empty string switches the search off, whatever the
  host counts as white space. On a host where lower-casing and trimming the query commute,
  as on the sample host, the search restriction is: the trimmed query occurs, ignoring
  case, in the title, in the description or in one of the tags.
\<close>

lemma searchRestriction_off:
  "trim (searchQuery flt) = [] \<Longrightarrow> searchRestriction toLowerCase trim flt t"
  by (simp add: searchRestriction_def)

lemma searchRestriction_ignoring_case:
  assumes "trim (toLowerCase (searchQuery flt)) = toLowerCase (trim (searchQuery flt))"
  shows "searchRestriction toLowerCase trim flt t =
     (if trim (searchQuery flt) = [] then True
      else containsIgnoringCase toLowerCase (title t) (trim (searchQuery flt))
         \<or> containsIgnoringCase toLowerCase (description t) (trim (searchQuery flt))
         \<or> list_ex (\<lambda>g. containsIgnoringCase toLowerCase g (trim (searchQuery flt))) (tags t))"
  using assms by (simp add: searchRestriction_def containsIgnoringCase_def Let_def)

subsection \<open>The engine on the store\<close>

lemma holds_spread: "holds h0 (map (objects h0) (arrays h0 a)) (array_spread a h0)"
  by (simp add: holds_def extends_def array_spread_def alloc_def)

lemma holds_filter:
  assumes "holds h0 ts (h, r)"
  shows "holds h0 (filter p ts) (array_filter p r h)"
proof -
  have "map (objects h) (filter (\<lambda>r. p (objects h r)) (arrays h r))
      = filter p (map (objects h) (arrays h r))"
    by (simp add: filter_map comp_def)
  with assms have "map (objects h) (filter (\<lambda>r. p (objects h r)) (arrays h r)) = filter p ts"
    by (simp add: holds_def)
  with assms show ?thesis
    by (simp add: holds_def extends_def array_filter_def alloc_def)
qed

lemma map_array_insert:
  "map f (array_insert (\<lambda>x y. c (f x) (f y)) x ys) = array_insert c (f x) (map f ys)"
  by (induction ys) simp_all

lemma map_array_sort:
  "map f (array_sort (\<lambda>x y. c (f x) (f y)) xs) = array_sort c (map f xs)"
  by (induction xs) (simp_all add: map_array_insert)

lemma holds_sort:
  assumes "holds h0 ts (h, r)"
  shows "holds h0 (array_sort c ts) (array_sort_in_place c r h, r)"
proof -
  from assms have "map (objects h) (arrays h r) = ts" by (simp add: holds_def)
  then have "map (objects h) (array_sort (\<lambda>x y. c (objects h x) (objects h y)) (arrays h r))
      = array_sort c ts"
    by (simp add: map_array_sort)
  with assms show ?thesis
    by (simp add: holds_def extends_def array_sort_in_place_def)
qed

lemma holds_store:
  "holds h0 (sortAndFilterTasks lc toLowerCase trim (map (objects h0) (arrays h0 tasks)) flt order)
     (sortAndFilterTasks_store lc toLowerCase trim tasks flt order h0)"
proof -
  let ?ts0 = "map (objects h0) (arrays h0 tasks)"
  obtain h1 r1 where s1: "array_spread tasks h0 = (h1, r1)" by fastforce
  have i1: "holds h0 ?ts0 (h1, r1)" using holds_spread [of h0 tasks] s1 by simp
  let ?ts2 = "(case status flt of
               StatusActive \<Rightarrow> filter (\<lambda>t. \<not> completed t) ?ts0
             | StatusCompleted \<Rightarrow> filter (\<lambda>t. completed t) ?ts0
             | StatusAll \<Rightarrow> ?ts0)"
  obtain h2 r2 where s2: "(case status flt of
               StatusActive \<Rightarrow> array_filter (\<lambda>t. \<not> completed t) r1 h1
             | StatusCompleted \<Rightarrow> array_filter (\<lambda>t. completed t) r1 h1
             | StatusAll \<Rightarrow> (h1, r1)) = (h2, r2)" by fastforce
  have i2: "holds h0 ?ts2 (h2, r2)"
    using i1 s2 [symmetric] by (cases "status flt") (simp_all add: holds_filter)
  let ?ts3 = "(if priority_f flt \<noteq> ''all''
             then filter (\<lambda>t. priorityStr (priority t) = priority_f flt) ?ts2
             else ?ts2)"
  obtain h3 r3 where s3: "(if priority_f flt \<noteq> ''all''
             then array_filter (\<lambda>t. priorityStr (priority t) = priority_f flt) r2 h2
             else (h2, r2)) = (h3, r3)" by fastforce
  have i3: "holds h0 ?ts3 (h3, r3)"
    using i2 s3 [symmetric] by (simp add: holds_filter)
  let ?ts4 = "(if category_f flt \<noteq> ''all''
             then filter (\<lambda>t. categoryStr (category t) = category_f flt) ?ts3
             else ?ts3)"
  obtain h4 r4 where s4: "(if category_f flt \<noteq> ''all''
             then array_filter (\<lambda>t. categoryStr (category t) = category_f flt) r3 h3
             else (h3, r3)) = (h4, r4)" by fastforce
  have i4: "holds h0 ?ts4 (h4, r4)"
    using i3 s4 [symmetric] by (simp add: holds_filter)
  let ?ts5 = "(case tag flt of
               Some g \<Rightarrow> if g \<noteq> [] then filter (\<lambda>t. g \<in> set (tags t)) ?ts4 else ?ts4
             | None \<Rightarrow> ?ts4)"
  obtain h5 r5 where s5: "(case tag flt of
               Some g \<Rightarrow>
                 if g \<noteq> [] then array_filter (\<lambda>t. g \<in> set (tags t)) r4 h4
                 else (h4, r4)
             | None \<Rightarrow> (h4, r4)) = (h5, r5)" by fastforce
  have i5: "holds h0 ?ts5 (h5, r5)"
    using i4 s5 [symmetric] by (cases "tag flt") (simp_all add: holds_filter)
  let ?p = "(\<lambda>t. str_includes (toLowerCase (title t)) (trim (toLowerCase (searchQuery flt)))
                       \<or> str_includes (toLowerCase (description t)) (trim (toLowerCase (searchQuery flt)))
                       \<or> list_ex (\<lambda>tag. str_includes (toLowerCase tag) (trim (toLowerCase (searchQuery flt)))) (tags t))"
  let ?ts6 = "(if trim (searchQuery flt) \<noteq> [] then filter ?p ?ts5 else ?ts5)"
  obtain h6 r6 where s6: "(if trim (searchQuery flt) \<noteq> [] then array_filter ?p r5 h5 else (h5, r5)) = (h6, r6)"
    by fastforce
  have i6: "holds h0 ?ts6 (h6, r6)"
    using i5 s6 [symmetric] by (simp add: holds_filter)
  have "sortAndFilterTasks_store lc toLowerCase trim tasks flt order h0
      = (array_sort_in_place (getComparator lc order) r6 h6, r6)"
    unfolding sortAndFilterTasks_store_def Let_def s1 s2 s3 s4 s5 s6 prod.case by (rule refl)
  moreover have "sortAndFilterTasks lc toLowerCase trim ?ts0 flt order = array_sort (getComparator lc order) ?ts6"
    by (simp add: sortAndFilterTasks_def Let_def)
  ultimately show ?thesis using holds_sort [OF i6] by simp
qed

subsection \<open>Claims about the engine\<close>

text \<open>
  Claim C5. For every sort order, every filter and every input list, the result never
  has a completed task before an incomplete one: if the task at an index is completed, so
  is the task at every later index.
\<close>

theorem completed_always_last:
  assumes "i < j" and "j < length (sortAndFilterTasks lc toLowerCase trim tasks flt order)"
    and "completed (sortAndFilterTasks lc toLowerCase trim tasks flt order ! i)"
  shows "completed (sortAndFilterTasks lc toLowerCase trim tasks flt order ! j)"
proof -
  let ?out = "sortAndFilterTasks lc toLowerCase trim tasks flt order"
  have "sorted (map doneKey ?out)"
    unfolding sortAndFilterTasks_eq by (rule completedLast_sort)
  then have "doneKey (?out ! i) \<le> doneKey (?out ! j)"
    using assms(1,2) by (simp add: sorted_iff_nth_mono_less)
  with assms(3) show ?thesis by (simp add: doneKey_def split: if_splits)
qed

theorem completed_always_last_witness:
  "(1 :: nat) < 2
   \<and> 2 < length (sortAndFilterTasks (\<lambda>a b. 0) (\<lambda>s. s) (\<lambda>s. s)
          [fixture ''a'' High True 0 0 None, fixture ''b'' Low False 5 0 None,
           fixture ''c'' Low True 9 0 None] noFilter Deadline)
   \<and> completed (sortAndFilterTasks (\<lambda>a b. 0) (\<lambda>s. s) (\<lambda>s. s)
          [fixture ''a'' High True 0 0 None, fixture ''b'' Low False 5 0 None,
           fixture ''c'' Low True 9 0 None] noFilter Deadline ! 1)
   \<and> completed (sortAndFilterTasks (\<lambda>a b. 0) (\<lambda>s. s) (\<lambda>s. s)
          [fixture ''a'' High True 0 0 None, fixture ''b'' Low False 5 0 None,
           fixture ''c'' Low True 9 0 None] noFilter Deadline ! 2)"
proof -
  let ?out = "sortAndFilterTasks (\<lambda>a b. 0) (\<lambda>s. s) (\<lambda>s. s)
          [fixture ''a'' High True 0 0 None, fixture ''b'' Low False 5 0 None,
           fixture ''c'' Low True 9 0 None] noFilter Deadline"
  have out: "?out = [fixture ''b'' Low False 5 0 None, fixture ''a'' High True 0 0 None,
           fixture ''c'' Low True 9 0 None]"
    by (simp add: sortAndFilterTasks_def noFilter_def fixture_def getComparator_def)
  have h1: "(1 :: nat) < 2" by simp
  have h2: "2 < length ?out" unfolding out by simp
  have h3: "completed (?out ! 1)" unfolding out by (simp add: fixture_def)
  from completed_always_last [OF h1 h2 h3] h1 h2 h3 show ?thesis by blast
qed

text \<open>
  Claim C6. For every input list, every filter and every host, a task is in the result
  of the engine if and only if it is in the input and satisfies all five restrictions at
  once: status, priority, category, tag (the tag is an element of the task's tags,
  compared exactly) and the search (the query, trimmed and in lower case, occurs in the
  lower-cased title, description or one of the lower-cased tags).
\<close>

theorem filter_composition:
  "t \<in> set (sortAndFilterTasks lc toLowerCase trim tasks flt order) \<longleftrightarrow>
     t \<in> set tasks \<and> statusRestriction flt t \<and> priorityRestriction flt t
     \<and> categoryRestriction flt t \<and> tagRestriction flt t
     \<and> searchRestriction toLowerCase trim flt t"
  by (auto simp add: sortAndFilterTasks_eq set_array_sort satisfiesAll_def)

text \<open>
  On the sample host, with status active, priority high, category work, tag \<open>urgent\<close>
  and the query \<open>rePORT\<close> between blanks: of the eight tasks exactly the first three are
  in the result, found by the title, by a tag and by the description; each of the other
  five fails one restriction only (the tag \<open>Urgent\<close> is not the tag \<open>urgent\<close>).
\<close>

theorem filter_composition_witness:
  "set (sortAndFilterTasks (\<lambda>a b. 0) asciiToLowerCase asciiTrim searchTasks fixtureFilter Alpha)
     = {searchFixture ''Weekly REPORT'' [] [''urgent''] High Work False,
        searchFixture ''Plan'' ''nothing'' [''urgent'', ''Reports''] High Work False,
        searchFixture ''Plan'' ''Send the report'' [''urgent''] High Work False}"
proof -
  have "set (sortAndFilterTasks (\<lambda>a b. 0) asciiToLowerCase asciiTrim searchTasks
               fixtureFilter Alpha)
     = {t \<in> set searchTasks.
          statusRestriction fixtureFilter t \<and> priorityRestriction fixtureFilter t
          \<and> categoryRestriction fixtureFilter t \<and> tagRestriction fixtureFilter t
          \<and> searchRestriction asciiToLowerCase asciiTrim fixtureFilter t}"
    using filter_composition
      [of _ "\<lambda>a b. 0" asciiToLowerCase asciiTrim searchTasks fixtureFilter Alpha]
    by blast
  also have "\<dots> = set (filter
       (\<lambda>t. statusRestriction fixtureFilter t \<and> priorityRestriction fixtureFilter t
          \<and> categoryRestriction fixtureFilter t \<and> tagRestriction fixtureFilter t
          \<and> searchRestriction asciiToLowerCase asciiTrim fixtureFilter t) searchTasks)"
    by simp
  also have "\<dots> = {searchFixture ''Weekly REPORT'' [] [''urgent''] High Work False,
        searchFixture ''Plan'' ''nothing'' [''urgent'', ''Reports''] High Work False,
        searchFixture ''Plan'' ''Send the report'' [''urgent''] High Work False}"
    by (simp add: searchTasks_def fixtureFilter_def searchFixture_def statusRestriction_def
        priorityRestriction_def categoryRestriction_def tagRestriction_def
        searchRestriction_def asciiTrim_def asciiWhiteSpace_def asciiToLowerCase_def
        asciiLowerChar_def Let_def sublist_Cons_right)
  finally show ?thesis .
qed

text \<open>
  Claim C8. The engine returns a new array and leaves the input untouched: the result is
  an address that was not allocated before the call, so it is not the input array; the
  input array and every other array allocated before the call hold the same elements in
  the same order afterwards; no task object is changed; and the new array holds the
  filtered and sorted tasks.
\<close>

theorem input_untouched:
  assumes "sortAndFilterTasks_store lc toLowerCase trim tasks flt order h0 = (h, result)"
    and "tasks < nextAddr h0"
  shows "arrays h tasks = arrays h0 tasks \<and> objects h = objects h0 \<and> result \<noteq> tasks
    \<and> nextAddr h0 \<le> result
    \<and> (\<forall>a<nextAddr h0. arrays h a = arrays h0 a)
    \<and> map (objects h) (arrays h result)
        = sortAndFilterTasks lc toLowerCase trim (map (objects h0) (arrays h0 tasks)) flt order"
  using holds_store [of h0 lc toLowerCase trim tasks flt order] assms
  by (auto simp add: holds_def extends_def)

theorem input_untouched_witness:
  "(0 :: nat) < nextAddr fixtureStore
   \<and> arrays (fst (sortAndFilterTasks_store (\<lambda>a b. 0) (\<lambda>s. s) (\<lambda>s. s) 0 noFilter Smart fixtureStore)) 0 = [0, 1]
   \<and> snd (sortAndFilterTasks_store (\<lambda>a b. 0) (\<lambda>s. s) (\<lambda>s. s) 0 noFilter Smart fixtureStore) \<noteq> 0
   \<and> map (objects (fst (sortAndFilterTasks_store (\<lambda>a b. 0) (\<lambda>s. s) (\<lambda>s. s) 0 noFilter Smart fixtureStore)))
        (arrays (fst (sortAndFilterTasks_store (\<lambda>a b. 0) (\<lambda>s. s) (\<lambda>s. s) 0 noFilter Smart fixtureStore))
           (snd (sortAndFilterTasks_store (\<lambda>a b. 0) (\<lambda>s. s) (\<lambda>s. s) 0 noFilter Smart fixtureStore)))
       = [fixture ''todo'' Low False 5 0 None, fixture ''done'' High True 0 0 (Some (- 1))]"
proof -
  let ?s = "sortAndFilterTasks_store (\<lambda>a b. 0) (\<lambda>s. s) (\<lambda>s. s) 0 noFilter Smart fixtureStore"
  have e: "?s = (fst ?s, snd ?s)" by simp
  have h: "(0 :: nat) < nextAddr fixtureStore" by (simp add: fixtureStore_def)
  have r: "sortAndFilterTasks (\<lambda>a b. 0) (\<lambda>s. s) (\<lambda>s. s) (map (objects fixtureStore) (arrays fixtureStore 0))
          noFilter Smart
        = [fixture ''todo'' Low False 5 0 None, fixture ''done'' High True 0 0 (Some (- 1))]"
    by (simp add: sortAndFilterTasks_def noFilter_def fixtureStore_def fixture_def
        getComparator_def)
  note u = input_untouched [OF e h]
  from u have c1: "arrays (fst ?s) 0 = arrays fixtureStore 0"
    and c2: "snd ?s \<noteq> 0"
    and c3: "map (objects (fst ?s)) (arrays (fst ?s) (snd ?s))
        = sortAndFilterTasks (\<lambda>a b. 0) (\<lambda>s. s) (\<lambda>s. s) (map (objects fixtureStore) (arrays fixtureStore 0))
            noFilter Smart"
    by blast+
  have c1': "arrays (fst ?s) 0 = [0, 1]" unfolding c1 by (simp add: fixtureStore_def)
  from h c1' c2 c3 [unfolded r] show ?thesis by blast
qed

text \<open>
  Claim C10. Under the smart order a task without a cached \<open>sortScore\<close> is compared as if
  its score were 0: the comparator does not distinguish an absent score from the score 0,
  and among tasks of equal completion state in the result no task with a positive score
  comes after it and no task with a negative score comes before it.
\<close>

theorem absent_score_as_zero:
  assumes "i < j" and "j < length (sortAndFilterTasks lc toLowerCase trim tasks flt Smart)"
    and "completed (sortAndFilterTasks lc toLowerCase trim tasks flt Smart ! i)
       = completed (sortAndFilterTasks lc toLowerCase trim tasks flt Smart ! j)"
  shows "getComparator lc Smart (a\<lparr>sortScore := None\<rparr>) b
       = getComparator lc Smart (a\<lparr>sortScore := Some 0\<rparr>) b
    \<and> getComparator lc Smart b (a\<lparr>sortScore := None\<rparr>)
       = getComparator lc Smart b (a\<lparr>sortScore := Some 0\<rparr>)
    \<and> (sortScore (sortAndFilterTasks lc toLowerCase trim tasks flt Smart ! i) = None
        \<and> sortScore (sortAndFilterTasks lc toLowerCase trim tasks flt Smart ! j) = Some s \<longrightarrow> s \<le> 0)
    \<and> (sortScore (sortAndFilterTasks lc toLowerCase trim tasks flt Smart ! i) = Some s
        \<and> sortScore (sortAndFilterTasks lc toLowerCase trim tasks flt Smart ! j) = None \<longrightarrow> 0 \<le> s)"
proof -
  let ?out = "sortAndFilterTasks lc toLowerCase trim tasks flt Smart"
  have "sorted_wrt (\<lambda>a b. getComparator lc Smart a b \<le> 0) ?out"
    unfolding sortAndFilterTasks_eq by (rule smart_sorted)
  then have "getComparator lc Smart (?out ! i) (?out ! j) \<le> 0"
    using assms(1,2) by (rule sorted_wrt_nth_less)
  then have le: "score0 (?out ! j) \<le> score0 (?out ! i)"
    using assms(3) by (simp add: smart_le_iff)
  have "s \<le> 0" if "sortScore (?out ! i) = None" "sortScore (?out ! j) = Some s"
    using le that by (simp add: score0_def)
  moreover have "0 \<le> s" if "sortScore (?out ! i) = Some s" "sortScore (?out ! j) = None"
    using le that by (simp add: score0_def)
  moreover have "getComparator lc Smart (a\<lparr>sortScore := None\<rparr>) b
       = getComparator lc Smart (a\<lparr>sortScore := Some 0\<rparr>) b"
    and "getComparator lc Smart b (a\<lparr>sortScore := None\<rparr>)
       = getComparator lc Smart b (a\<lparr>sortScore := Some 0\<rparr>)"
    by (simp_all add: getComparator_def)
  ultimately show ?thesis by blast
qed

theorem absent_score_as_zero_witness:
  "sortAndFilterTasks (\<lambda>a b. 0) (\<lambda>s. s) (\<lambda>s. s)
      [fixture ''a'' Low False 0 0 None, fixture ''b'' Low False 0 0 (Some 5),
       fixture ''c'' Low False 0 0 (Some (- 2))] noFilter Smart
    = [fixture ''b'' Low False 0 0 (Some 5), fixture ''a'' Low False 0 0 None,
       fixture ''c'' Low False 0 0 (Some (- 2))]
   \<and> (0 :: real) \<le> 5 \<and> (- 2 :: real) \<le> 0"
proof -
  let ?out = "sortAndFilterTasks (\<lambda>a b. 0) (\<lambda>s. s) (\<lambda>s. s)
      [fixture ''a'' Low False 0 0 None, fixture ''b'' Low False 0 0 (Some 5),
       fixture ''c'' Low False 0 0 (Some (- 2))] noFilter Smart"
  have out: "?out = [fixture ''b'' Low False 0 0 (Some 5), fixture ''a'' Low False 0 0 None,
       fixture ''c'' Low False 0 0 (Some (- 2))]"
    by (simp add: sortAndFilterTasks_def noFilter_def fixture_def getComparator_def)
  have l: "2 < length ?out" "1 < length ?out" unfolding out by simp_all
  have c01: "completed (?out ! 0) = completed (?out ! 1)" unfolding out by (simp add: fixture_def)
  have c12: "completed (?out ! 1) = completed (?out ! 2)" unfolding out by (simp add: fixture_def)
  have s0: "sortScore (?out ! 0) = Some 5" unfolding out by (simp add: fixture_def)
  have s1: "sortScore (?out ! 1) = None" unfolding out by (simp add: fixture_def)
  have s2: "sortScore (?out ! 2) = Some (- 2)" unfolding out by (simp add: fixture_def)
  have lt: "(1 :: nat) < 2" by simp
  have "(0 :: real) \<le> 5"
    using absent_score_as_zero [OF zero_less_one l(2) c01, of _ _ 5] s0 s1 by blast
  moreover have "(- 2 :: real) \<le> 0"
    using absent_score_as_zero [OF lt l(1) c12, of _ _ "- 2"] s1 s2 by blast
  ultimately show ?thesis using out by simp
qed

end
